theory Spec2Isabelle
  imports Main "HOL-Library.Word"
begin

section \<open>JavaScript strings and cell values\<close>

text \<open>
  A JavaScript string is the list of its UTF-16 code units. \<open>js\<close> writes an ASCII
  literal as such a list.
\<close>

type_synonym jsstring = "16 word list"

definition js :: "string \<Rightarrow> jsstring" where
  "js s = map of_char s"

text \<open>The class \<open>\w\<close> of a regular expression without flags: \<open>[A-Za-z0-9_]\<close>.\<close>

definition is_word :: "16 word \<Rightarrow> bool" where
  "is_word c \<longleftrightarrow>
     (0x30 \<le> c \<and> c \<le> 0x39) \<or> (0x41 \<le> c \<and> c \<le> 0x5A) \<or> c = 0x5F \<or> (0x61 \<le> c \<and> c \<le> 0x7A)"

text \<open>
  What \<open>String.prototype.trim\<close> strips: the white space and line terminator code
  units of ECMAScript.
\<close>

definition is_space :: "16 word \<Rightarrow> bool" where
  "is_space c \<longleftrightarrow>
     (0x09 \<le> c \<and> c \<le> 0x0D) \<or> c = 0x20 \<or> c = 0xA0 \<or> c = 0x1680 \<or>
     (0x2000 \<le> c \<and> c \<le> 0x200A) \<or> c = 0x2028 \<or> c = 0x2029 \<or> c = 0x202F \<or>
     c = 0x205F \<or> c = 0x3000 \<or> c = 0xFEFF"

definition trim :: "jsstring \<Rightarrow> jsstring" where
  "trim s = rev (dropWhile is_space (rev (dropWhile is_space s)))"

text \<open>
  \<open>toLowerCase\<close> on the letters A to Z. The code compares the lowered extension with
  \<open>csv\<close>, \<open>xlsx\<close> and \<open>xls\<close> only, and no code unit outside A to Z lowers to one of
  their letters.
\<close>

definition toLowerCase :: "jsstring \<Rightarrow> jsstring" where
  "toLowerCase s = map (\<lambda>c. if 0x41 \<le> c \<and> c \<le> 0x5A then c + 0x20 else c) s"

text \<open>The decimal digits of a number, as a template literal and \<open>toString\<close> print it.\<close>

fun digits :: "nat \<Rightarrow> jsstring" where
  "digits n = (if n < 10 then [0x30 + of_nat n] else digits (n div 10) @ [0x30 + of_nat (n mod 10)])"

declare digits.simps [simp del]

definition int_toString :: "int \<Rightarrow> jsstring" where
  "int_toString i = (if i < 0 then 0x2D # digits (nat (- i)) else digits (nat i))"

text \<open>
  The values a property read on a parsed row can give. A CSV cell is a string; a
  spreadsheet cell is a string, a number or a boolean. Numeric cells are taken at integer
  values (of magnitude below \<open>10^21\<close>, which print as their decimal digits).
  \<open>JFunction n\<close> is the built-in function named \<open>n\<close>, whose string form is written as
  V8 prints it, and \<open>JObject\<close> a plain object: both are only met through the prototype
  of a row.
\<close>

datatype jsval =
    JUndefined
  | JNull
  | JString jsstring
  | JNumber int
  | JBoolean bool
  | JFunction jsstring
  | JObject

text \<open>\<open>v?.toString()\<close>: \<open>None\<close> is \<open>undefined\<close>, the result on a nullish value.\<close>

fun opt_toString :: "jsval \<Rightarrow> jsstring option" where
  "opt_toString JUndefined = None"
| "opt_toString JNull = None"
| "opt_toString (JString s) = Some s"
| "opt_toString (JNumber i) = Some (int_toString i)"
| "opt_toString (JBoolean b) = Some (if b then js ''true'' else js ''false'')"
| "opt_toString (JFunction n) = Some (js ''function '' @ n @ js ''() { [native code] }'')"
| "opt_toString JObject = Some (js ''[object Object]'')"

text \<open>
  A row is a plain object: the map of its own properties, one per column header. A
  property read \<open>data[key]\<close> that finds no own property continues in \<open>Object.prototype\<close>,
  which every plain object inherits from.
\<close>

type_synonym row = "jsstring \<rightharpoonup> jsval"

definition object_prototype :: "jsstring \<rightharpoonup> jsval" where
  "object_prototype = map_of
     [(js ''constructor'', JFunction (js ''Object'')),
      (js ''hasOwnProperty'', JFunction (js ''hasOwnProperty'')),
      (js ''isPrototypeOf'', JFunction (js ''isPrototypeOf'')),
      (js ''propertyIsEnumerable'', JFunction (js ''propertyIsEnumerable'')),
      (js ''toLocaleString'', JFunction (js ''toLocaleString'')),
      (js ''toString'', JFunction (js ''toString'')),
      (js ''valueOf'', JFunction (js ''valueOf'')),
      (js ''__defineGetter__'', JFunction (js ''__defineGetter__'')),
      (js ''__defineSetter__'', JFunction (js ''__defineSetter__'')),
      (js ''__lookupGetter__'', JFunction (js ''__lookupGetter__'')),
      (js ''__lookupSetter__'', JFunction (js ''__lookupSetter__'')),
      (js ''__proto__'', JObject)]"

definition getProp :: "row \<Rightarrow> jsstring \<Rightarrow> jsval" where
  "getProp data key =
     (case data key of
        Some v \<Rightarrow> v
      | None \<Rightarrow> (case object_prototype key of Some v \<Rightarrow> v | None \<Rightarrow> JUndefined))"

section \<open>Template renderer\<close>

text \<open>
  \<open>template.replace(/{(\w+)}/g, (_, key) => data[key]?.toString() || '')\<close>.

  \<open>placeholder_at s\<close> is the match of \<open>{(\w+)}\<close> anchored at the head of \<open>s\<close>: the
  captured key and the text after the closing brace. \<open>\w+\<close> is greedy, and giving
  characters back cannot help, since the one after a shorter key is a word character and
  not the closing brace.
\<close>

definition placeholder_at :: "jsstring \<Rightarrow> (jsstring \<times> jsstring) option" where
  "placeholder_at s =
     (case s of
        [] \<Rightarrow> None
      | c # cs \<Rightarrow>
          if c = 0x7B then
            (let key = takeWhile is_word cs; rest = dropWhile is_word cs
             in if key = [] then None
                else (case rest of
                        [] \<Rightarrow> None
                      | d # after \<Rightarrow> if d = 0x7D then Some (key, after) else None))
          else None)"

text \<open>The replacement callback: \<open>data[key]?.toString() || ''\<close>.\<close>

definition fieldText :: "row \<Rightarrow> jsstring \<Rightarrow> jsstring" where
  "fieldText data key =
     (case opt_toString (getProp data key) of
        None \<Rightarrow> []
      | Some s \<Rightarrow> if s = [] then [] else s)"

text \<open>
  The global replace scans from the left: at a match the callback's text is emitted and
  the scan goes on after the closing brace (the emitted text is not scanned again);
  elsewhere one code unit is copied.
\<close>

function replacePlaceholders :: "jsstring \<Rightarrow> row \<Rightarrow> jsstring" where
  "replacePlaceholders [] data = []"
| "replacePlaceholders (c # cs) data =
     (case placeholder_at (c # cs) of
        Some (key, after) \<Rightarrow> fieldText data key @ replacePlaceholders after data
      | None \<Rightarrow> c # replacePlaceholders cs data)"
  by pat_completeness auto
termination
proof (relation "measure (\<lambda>(s, data). length s)")
  show "wf (measure (\<lambda>(s, data). length s))"
    by simp
next
  fix c :: "16 word" and cs :: jsstring and data :: row
  show "((cs, data), (c # cs, data)) \<in> measure (\<lambda>(s, data). length s)"
    by simp
next
  fix c :: "16 word" and cs after :: jsstring and data :: row and m key
  assume "placeholder_at (c # cs) = Some m" and "(key, after) = m"
  then have "dropWhile is_word cs = 0x7D # after"
    by (auto simp: placeholder_at_def Let_def split: if_splits list.splits)
  then have "Suc (length after) = length (dropWhile is_word cs)"
    by simp
  also have "\<dots> \<le> length cs"
    by (rule length_dropWhile_le)
  finally show "((after, data), (c # cs, data)) \<in> measure (\<lambda>(s, data). length s)"
    by simp
qed

section \<open>Dispatch client\<close>

text \<open>
  The component's props. \<open>None\<close> is a prop that was not passed (\<open>undefined\<close>).
\<close>

record props =
  sessionId :: "jsstring option"
  accessToken :: "jsstring option"

text \<open>
  The POST that \<open>sendMessage\<close> prepares: the endpoint, the two query parameters and the
  one-element recipient list of the JSON body.
\<close>

record request =
  url :: jsstring
  instance_id :: jsstring
  access_token :: jsstring
  recipients :: "(jsstring \<times> jsstring) list"

text \<open>
  What the environment does with one attempt. \<open>Thrown m\<close>: the URL constructor, \<open>fetch\<close>
  or \<open>response.text()\<close> threw or rejected with an error whose message is \<open>m\<close>.
  \<open>Response ok body\<close>: the call resolved with the flag \<open>response.ok\<close> and the body text.
\<close>

datatype attempt = Thrown jsstring | Response bool jsstring

text \<open>
  The environment: \<open>VITE_API_URL\<close>, and the remote, which answers the \<open>k\<close>-th attempt
  of a run as it likes.
\<close>

record env =
  apiUrl :: jsstring
  remote :: "nat \<Rightarrow> request \<Rightarrow> attempt"

datatype send_result = Success | Failure jsstring

text \<open>\<open>searchParams.append\<close> turns its value into a string.\<close>

definition param_text :: "jsstring option \<Rightarrow> jsstring" where
  "param_text v = (case v of None \<Rightarrow> js ''undefined'' | Some s \<Rightarrow> s)"

definition bulksendRequest :: "env \<Rightarrow> props \<Rightarrow> jsstring \<Rightarrow> jsstring \<Rightarrow> request" where
  "bulksendRequest e p number message =
     \<lparr>url = apiUrl e @ js ''/api/bulksend'',
      instance_id = param_text (sessionId p),
      access_token = param_text (accessToken p),
      recipients = [(number, message)]\<rparr>"

text \<open>
  \<open>sendMessage\<close>, as the \<open>k\<close>-th attempt of a run. Everything is inside the \<open>try\<close>; a
  response that is not ok is thrown as \<open>new Error(resText || 'Unknown error')\<close> and
  caught with the rest.
\<close>

definition sendMessage :: "env \<Rightarrow> props \<Rightarrow> nat \<Rightarrow> jsstring \<Rightarrow> jsstring \<Rightarrow> send_result" where
  "sendMessage e p k number message =
     (case remote e k (bulksendRequest e p number message) of
        Thrown m \<Rightarrow> Failure m
      | Response ok resText \<Rightarrow>
          if \<not> ok then Failure (if resText = [] then js ''Unknown error'' else resText)
          else Success)"

text \<open>Two remotes for examples: one answer for every attempt, and a script of answers.\<close>

definition always :: "attempt \<Rightarrow> nat \<Rightarrow> request \<Rightarrow> attempt" where
  "always a k r = a"

definition script :: "attempt list \<Rightarrow> nat \<Rightarrow> request \<Rightarrow> attempt" where
  "script as k r = (if k < length as then as ! k else Response True [])"

section \<open>Component state and effects\<close>

record progress_state =
  current :: nat
  total :: nat

text \<open>
  The selected file: its name and the records that the parser chosen by the extension
  (Papa Parse or SheetJS) delivers for it.
\<close>

record upload =
  name :: jsstring
  records :: "row list"

record state =
  inputFile :: "upload option"
  bulkMessage :: jsstring
  sending :: bool
  delaySeconds :: int
  progress :: progress_state

text \<open>
  What a click on the button does, in order: the state setters called, the requests
  attempted, the timers awaited (in milliseconds) and the alerts shown. \<open>TypeError\<close> is
  an uncaught exception, which ends the handler. Console output is left out.
\<close>

datatype event =
    SetSending bool
  | SetInputFile "upload option"
  | SetBulkMessage jsstring
  | SetProgress progress_state
  | Fetch request
  | Sleep int
  | Alert jsstring
  | TypeError

fun apply_event :: "state \<Rightarrow> event \<Rightarrow> state" where
  "apply_event st (SetSending b) = st\<lparr>sending := b\<rparr>"
| "apply_event st (SetInputFile f) = st\<lparr>inputFile := f\<rparr>"
| "apply_event st (SetBulkMessage m) = st\<lparr>bulkMessage := m\<rparr>"
| "apply_event st (SetProgress p) = st\<lparr>progress := p\<rparr>"
| "apply_event st (Fetch r) = st"
| "apply_event st (Sleep ms) = st"
| "apply_event st (Alert m) = st"
| "apply_event st TypeError = st"

section \<open>Bulk sequencer\<close>

text \<open>\<open>row.number?.toString().trim()\<close>: \<open>None\<close> when the field is nullish.\<close>

definition rowNumber :: "row \<Rightarrow> jsstring option" where
  "rowNumber r = map_option trim (opt_toString (getProp r (js ''number'')))"

text \<open>The filter's predicate: that value is truthy, a string that is not empty.\<close>

definition hasNumber :: "row \<Rightarrow> bool" where
  "hasNumber r = (case rowNumber r of None \<Rightarrow> False | Some n \<Rightarrow> n \<noteq> [])"

text \<open>
  The \<open>for\<close> loop, from index \<open>i\<close> with the counters \<open>successful\<close> and \<open>failed\<close>: its
  events and the counters at the end. \<open>row.number.toString()\<close> has no \<open>?.\<close> and throws on
  a nullish field.
\<close>

function bulkLoop ::
  "env \<Rightarrow> props \<Rightarrow> jsstring \<Rightarrow> int \<Rightarrow> row list \<Rightarrow> nat \<Rightarrow> nat \<Rightarrow> nat \<times> jsstring list \<Rightarrow>
   event list \<times> (nat \<times> jsstring list) option" where
  "bulkLoop e p template delay validRows totalMessages i (successful, failed) =
     (if i < length validRows then
        (case rowNumber (validRows ! i) of
           None \<Rightarrow> ([TypeError], None)
         | Some number \<Rightarrow>
             (let personalizedMessage = replacePlaceholders template (validRows ! i);
                  result = sendMessage e p i number personalizedMessage;
                  counters = (case result of
                                Success \<Rightarrow> (successful + 1, failed)
                              | Failure err \<Rightarrow> (successful, failed @ [number]));
                  pause = (if int i < int (length validRows) - 1
                           then [Sleep (delay * 1000)] else []);
                  next = bulkLoop e p template delay validRows totalMessages (i + 1) counters
              in ([SetProgress \<lparr>current = i + 1, total = totalMessages\<rparr>,
                   Fetch (bulksendRequest e p number personalizedMessage)] @ pause @ fst next,
                  snd next)))
      else ([], Some (successful, failed)))"
  by pat_completeness auto
termination
  by (relation "measure (\<lambda>(e, p, template, delay, validRows, totalMessages, i, c). length validRows - i)")
     auto

declare bulkLoop.simps [simp del]

text \<open>\<open>failed.join(', ')\<close>.\<close>

fun join :: "jsstring \<Rightarrow> jsstring list \<Rightarrow> jsstring" where
  "join sep [] = []"
| "join sep [x] = x"
| "join sep (x # y # ys) = x @ sep @ join sep (y # ys)"

definition summary :: "nat \<Rightarrow> jsstring list \<Rightarrow> jsstring" where
  "summary successful failed =
     (if length failed > 0 then
        0x2705 # js '' Successfully sent: '' @ digits successful @ js '', '' @
        0x274C # js '' Failed: '' @ digits (length failed) @
        0x0A # js ''Failed numbers: '' @ join (js '', '') failed
      else
        0x2705 # js '' All messages sent successfully to '' @ digits successful @
        js '' contacts!'')"

text \<open>The rows the filter keeps, and the loop as the callback starts it.\<close>

definition validRowsOf :: "row list \<Rightarrow> row list" where
  "validRowsOf data = filter hasNumber data"

definition sequencer ::
  "env \<Rightarrow> props \<Rightarrow> jsstring \<Rightarrow> int \<Rightarrow> row list \<Rightarrow> event list \<times> (nat \<times> jsstring list) option" where
  "sequencer e p template delay data =
     bulkLoop e p template delay (validRowsOf data) (length (validRowsOf data)) 0 (0, [])"

text \<open>
  The callback given to \<open>parseFile\<close>. The handler's closure holds the template and the
  delay of the render in which the button was clicked.
\<close>

definition onParsed :: "env \<Rightarrow> props \<Rightarrow> jsstring \<Rightarrow> int \<Rightarrow> row list \<Rightarrow> event list" where
  "onParsed e p template delay data =
     (let totalMessages = length (validRowsOf data);
          run = sequencer e p template delay data
      in SetProgress \<lparr>current = 0, total = totalMessages\<rparr> # fst run @
         (case snd run of
            None \<Rightarrow> []
          | Some (successful, failed) \<Rightarrow>
              [SetSending False, SetInputFile None, SetBulkMessage [],
               SetProgress \<lparr>current = 0, total = 0\<rparr>, Alert (summary successful failed)]))"

text \<open>\<open>file.name.split('.').pop()\<close>: the text after the last dot, or the whole name.\<close>

definition lastSegment :: "jsstring \<Rightarrow> jsstring" where
  "lastSegment n = rev (takeWhile (\<lambda>c. c \<noteq> 0x2E) (rev n))"

definition extension :: "upload \<Rightarrow> jsstring" where
  "extension f = toLowerCase (lastSegment (name f))"

definition parseFile :: "upload \<Rightarrow> (row list \<Rightarrow> event list) \<Rightarrow> event list" where
  "parseFile f callback =
     (let ext = extension f
      in if ext = js ''csv'' then callback (records f)
         else if ext = js ''xlsx'' \<or> ext = js ''xls'' then callback (records f)
         else [Alert (js ''Unsupported file type! Please upload a .csv, .xlsx, or .xls file.'')])"

text \<open>\<open>!v\<close> on a prop: \<open>undefined\<close> and the empty string are falsy.\<close>

definition falsy :: "jsstring option \<Rightarrow> bool" where
  "falsy v = (case v of None \<Rightarrow> True | Some s \<Rightarrow> s = [])"

definition handleBulkSend :: "env \<Rightarrow> props \<Rightarrow> state \<Rightarrow> event list" where
  "handleBulkSend e p st =
     (if falsy (sessionId p) \<or> inputFile st = None \<or> falsy (accessToken p) \<or>
         trim (bulkMessage st) = []
      then [Alert (js ''Session ID, file, access token, and message are required!'')]
      else SetSending True #
           (case inputFile st of
              None \<Rightarrow> [TypeError]
            | Some f \<Rightarrow> parseFile f (onParsed e p (bulkMessage st) (delaySeconds st))))"

text \<open>The component's state after the click.\<close>

definition click :: "env \<Rightarrow> props \<Rightarrow> state \<Rightarrow> state" where
  "click e p st = foldl apply_event st (handleBulkSend e p st)"

section \<open>Notions used to state the properties\<close>

text \<open>The token \<open>{key}\<close>.\<close>

definition token :: "jsstring \<Rightarrow> jsstring" where
  "token key = 0x7B # key @ [0x7D]"

text \<open>The pattern \<open>{(\w+)}\<close> matches somewhere in the string.\<close>

fun contains_placeholder :: "jsstring \<Rightarrow> bool" where
  "contains_placeholder [] = False"
| "contains_placeholder (c # cs) = (placeholder_at (c # cs) \<noteq> None \<or> contains_placeholder cs)"

text \<open>
  The recipient of a kept row (the trimmed text of its \<open>number\<close> field), the request
  sent for it, and the pair of its number and the outcome of its dispatch when it is the
  \<open>j\<close>-th row of the run.
\<close>

definition numberOf :: "row \<Rightarrow> jsstring" where
  "numberOf r = (case rowNumber r of None \<Rightarrow> [] | Some n \<Rightarrow> n)"

definition requestOf :: "env \<Rightarrow> props \<Rightarrow> jsstring \<Rightarrow> row \<Rightarrow> request" where
  "requestOf e p template r = bulksendRequest e p (numberOf r) (replacePlaceholders template r)"

definition dispatch :: "env \<Rightarrow> props \<Rightarrow> jsstring \<Rightarrow> nat \<times> row \<Rightarrow> jsstring \<times> send_result" where
  "dispatch e p template =
     (\<lambda>(j, r). (numberOf r, sendMessage e p j (numberOf r) (replacePlaceholders template r)))"

definition outcomes :: "env \<Rightarrow> props \<Rightarrow> jsstring \<Rightarrow> row list \<Rightarrow> (jsstring \<times> send_result) list" where
  "outcomes e p template data = map (dispatch e p template) (enumerate 0 (validRowsOf data))"

text \<open>
  The events of one iteration, for the \<open>j\<close>-th of \<open>n\<close> rows when the progress reports
  the total \<open>tot\<close>.
\<close>

definition rowEvents ::
  "env \<Rightarrow> props \<Rightarrow> jsstring \<Rightarrow> int \<Rightarrow> nat \<Rightarrow> nat \<Rightarrow> nat \<times> row \<Rightarrow> event list" where
  "rowEvents e p template delay n tot =
     (\<lambda>(j, r).
        [SetProgress \<lparr>current = j + 1, total = tot\<rparr>, Fetch (requestOf e p template r)] @
        (if int j < int n - 1 then [Sleep (delay * 1000)] else []))"

text \<open>Projections of a list of events.\<close>

fun progressEvents :: "event list \<Rightarrow> progress_state list" where
  "progressEvents [] = []"
| "progressEvents (SetProgress q # evs) = q # progressEvents evs"
| "progressEvents (ev # evs) = progressEvents evs"

fun fetches :: "event list \<Rightarrow> request list" where
  "fetches [] = []"
| "fetches (Fetch r # evs) = r # fetches evs"
| "fetches (ev # evs) = fetches evs"

fun sleeps :: "event list \<Rightarrow> int list" where
  "sleeps [] = []"
| "sleeps (Sleep ms # evs) = ms # sleeps evs"
| "sleeps (ev # evs) = sleeps evs"

fun is_Sleep :: "event \<Rightarrow> bool" where
  "is_Sleep (Sleep ms) = True"
| "is_Sleep ev = False"

fun is_SetProgress :: "event \<Rightarrow> bool" where
  "is_SetProgress (SetProgress q) = True"
| "is_SetProgress ev = False"

text \<open>The events a loop iteration can produce.\<close>

fun loop_event :: "event \<Rightarrow> bool" where
  "loop_event (SetProgress q) = True"
| "loop_event (Fetch r) = True"
| "loop_event (Sleep ms) = True"
| "loop_event ev = False"

text \<open>A separator between every two neighbours of a list, and nowhere else.\<close>

fun intersperse :: "'a \<Rightarrow> 'a list \<Rightarrow> 'a list" where
  "intersperse sep [] = []"
| "intersperse sep [x] = [x]"
| "intersperse sep (x # y # ys) = x # sep # intersperse sep (y # ys)"

text \<open>
  The Dispatch Client as the specification words its result: success on an ok status,
  and otherwise a failure whose reason is the response body, else the message of the
  transport error.
\<close>

fun claimed_result :: "attempt \<Rightarrow> send_result" where
  "claimed_result (Response ok body) = (if ok then Success else Failure body)"
| "claimed_result (Thrown m) = Failure m"

text \<open>
  The example of the specification: three rows, the second without a number; the remote
  accepts the first attempt and the second one times out.
\<close>

definition example_rows :: "row list" where
  "example_rows =
     [map_of [(js ''number'', JString (js ''111'')), (js ''name'', JString (js ''Ann''))],
      map_of [(js ''number'', JString []), (js ''name'', JString (js ''Bob''))],
      map_of [(js ''number'', JNumber 222), (js ''name'', JString (js ''Cid''))]]"

definition example_env :: env where
  "example_env = \<lparr>apiUrl = js ''https://api.example'',
                  remote = script [Response True (js ''ok''), Thrown (js ''timeout'')]\<rparr>"

definition example_props :: props where
  "example_props = \<lparr>sessionId = Some (js ''s1''), accessToken = Some (js ''t1'')\<rparr>"

definition example_state :: "jsstring \<Rightarrow> state" where
  "example_state filename =
     \<lparr>inputFile = Some \<lparr>name = filename, records = example_rows\<rparr>,
      bulkMessage = js ''Hi {name}'', sending = False, delaySeconds = 2,
      progress = \<lparr>current = 0, total = 0\<rparr>\<rparr>"

section \<open>The template renderer\<close>

lemma not_word_braces: "\<not> is_word 0x7B" "\<not> is_word 0x7D"
  by (simp_all add: is_word_def)

lemma takeWhile_word_brace:
  "list_all is_word key \<Longrightarrow> \<not> is_word b \<Longrightarrow> takeWhile is_word (key @ b # t) = key"
  by (induction key) simp_all

lemma dropWhile_word_brace:
  "list_all is_word key \<Longrightarrow> \<not> is_word b \<Longrightarrow> dropWhile is_word (key @ b # t) = b # t"
  by (induction key) simp_all

text \<open>A token at the head of the string is matched, with its name as the key.\<close>

lemma placeholder_at_token:
  assumes "key \<noteq> []" "list_all is_word key"
  shows "placeholder_at (token key @ post) = Some (key, post)"
  using assms
  by (simp add: placeholder_at_def token_def takeWhile_word_brace dropWhile_word_brace
        not_word_braces)

text \<open>And a match at the head is a token.\<close>

lemma placeholder_at_SomeD:
  assumes "placeholder_at s = Some (key, after)"
  shows "key \<noteq> [] \<and> list_all is_word key \<and> s = token key @ after"
proof -
  from assms obtain c cs where s: "s = c # cs"
    by (cases s) (auto simp: placeholder_at_def)
  from assms s have c: "c = 0x7B" and k: "key = takeWhile is_word cs" and ne: "key \<noteq> []"
    and d: "dropWhile is_word cs = 0x7D # after"
    by (auto simp: placeholder_at_def Let_def split: if_splits list.splits)
  have "cs = takeWhile is_word cs @ dropWhile is_word cs" by simp
  then have "cs = key @ 0x7D # after" using k d by simp
  moreover have "list_all is_word key"
    unfolding k list_all_iff by (auto dest: set_takeWhileD)
  ultimately show ?thesis using s c ne by (simp add: token_def)
qed

text \<open>
  An opening brace further right does not change a match: it is no word character, so a
  key never runs across it, and it is not the closing brace.
\<close>

lemma takeWhile_before_brace:
  "takeWhile is_word (cs @ 0x7B # t) = takeWhile is_word cs"
  by (induction cs) (simp_all add: not_word_braces)

lemma dropWhile_before_brace:
  "dropWhile is_word (cs @ 0x7B # t) = dropWhile is_word cs @ 0x7B # t"
  by (induction cs) (simp_all add: not_word_braces)

lemma placeholder_at_before_brace:
  "placeholder_at ((c # cs) @ 0x7B # t) =
     map_option (\<lambda>(key, after). (key, after @ 0x7B # t)) (placeholder_at (c # cs))"
proof (cases "dropWhile is_word cs")
  case Nil
  have "dropWhile is_word (cs @ 0x7B # t) = 0x7B # t"
    unfolding dropWhile_before_brace Nil by simp
  then show ?thesis
    by (simp add: placeholder_at_def takeWhile_before_brace Let_def Nil
          del: dropWhile_eq_Nil_conv)
next
  case (Cons d after)
  have "dropWhile is_word (cs @ 0x7B # t) = d # after @ 0x7B # t"
    unfolding dropWhile_before_brace Cons by simp
  then show ?thesis
    by (simp add: placeholder_at_def takeWhile_before_brace Let_def Cons)
qed

text \<open>
  Every occurrence of a token, wherever it stands, is replaced by the callback's text for
  its name, and the text before and after it is rendered on its own.
\<close>

lemma replacePlaceholders_token:
  assumes "key \<noteq> []" "list_all is_word key"
  shows "replacePlaceholders (pre @ token key @ post) data =
         replacePlaceholders pre data @ fieldText data key @ replacePlaceholders post data"
proof (induction pre data rule: replacePlaceholders.induct)
  case (1 data)
  obtain t where t: "token key @ post = 0x7B # t"
    by (simp add: token_def)
  have "placeholder_at (0x7B # t) = Some (key, post)"
    using placeholder_at_token [OF assms, of post] t by simp
  then show ?case
    using t by simp
next
  case (2 c cs data)
  obtain t where t: "token key @ post = 0x7B # t"
    by (simp add: token_def)
  show ?case
  proof (cases "placeholder_at (c # cs)")
    case None
    then have "placeholder_at (c # cs @ token key @ post) = None"
      using placeholder_at_before_brace [of c cs t] t by simp
    with None 2 show ?thesis by simp
  next
    case (Some m)
    obtain k after where m: "m = (k, after)" by (cases m)
    with Some have "placeholder_at (c # cs @ token key @ post) = Some (k, after @ token key @ post)"
      using placeholder_at_before_brace [of c cs t] t by simp
    with Some m 2 show ?thesis by simp
  qed
qed

text \<open>
  The callback gives the string form of the value read, and the empty string when the
  read gives \<open>undefined\<close>, \<open>null\<close> or the empty string.
\<close>

lemma fieldText_cases:
  "fieldText data key =
     (case getProp data key of
        JUndefined \<Rightarrow> []
      | JNull \<Rightarrow> []
      | v \<Rightarrow> (case opt_toString v of None \<Rightarrow> [] | Some s \<Rightarrow> s))"
  by (cases "getProp data key") (simp_all add: fieldText_def)

text \<open>
  For a name that is an own field of the record, or that \<open>Object.prototype\<close> does not
  define, the value read is the field, or \<open>undefined\<close>.
\<close>

lemma getProp_own: "data key = Some v \<Longrightarrow> getProp data key = v"
  by (simp add: getProp_def)

lemma getProp_absent:
  "data key = None \<Longrightarrow> object_prototype key = None \<Longrightarrow> fieldText data key = []"
  by (simp add: getProp_def fieldText_def)

text \<open>\<open>contains_placeholder\<close> says that some token occurs in the string.\<close>

lemma contains_placeholder_iff:
  "contains_placeholder s \<longleftrightarrow>
     (\<exists>pre key post. key \<noteq> [] \<and> list_all is_word key \<and> s = pre @ token key @ post)"
proof
  show "contains_placeholder s \<Longrightarrow>
     \<exists>pre key post. key \<noteq> [] \<and> list_all is_word key \<and> s = pre @ token key @ post"
  proof (induction s)
    case Nil
    then show ?case by simp
  next
    case (Cons c cs)
    show ?case
    proof (cases "placeholder_at (c # cs)")
      case None
      with Cons obtain pre key post where
        "key \<noteq> []" "list_all is_word key" "cs = pre @ token key @ post"
        by auto
      then have "key \<noteq> [] \<and> list_all is_word key \<and> c # cs = (c # pre) @ token key @ post"
        by simp
      then show ?thesis by blast
    next
      case (Some m)
      obtain key after where "m = (key, after)" by (cases m)
      with Some placeholder_at_SomeD [of "c # cs" key after]
      have "key \<noteq> [] \<and> list_all is_word key \<and> c # cs = [] @ token key @ after"
        by simp
      then show ?thesis by blast
    qed
  qed
next
  assume "\<exists>pre key post. key \<noteq> [] \<and> list_all is_word key \<and> s = pre @ token key @ post"
  then obtain pre key post where k: "key \<noteq> []" "list_all is_word key"
    and s: "s = pre @ token key @ post"
    by blast
  obtain t where t: "token key @ post = 0x7B # t"
    by (simp add: token_def)
  have "contains_placeholder (pre @ token key @ post)"
  proof (induction pre)
    case Nil
    show ?case
      using placeholder_at_token [OF k, of post] t by simp
  next
    case (Cons c pre)
    then show ?case by simp
  qed
  then show "contains_placeholder s"
    using s by simp
qed

lemma replacePlaceholders_plain:
  "\<not> contains_placeholder s \<Longrightarrow> replacePlaceholders s data = s"
  by (induction s) (auto split: option.splits)

text \<open>
  C5. The renderer replaces every token \<open>{fieldName}\<close> by the string form of the
  record's value, and by the empty string when the field is absent or empty. The
  replacement itself is \<open>replacePlaceholders_token\<close> above, and \<open>getProp_absent\<close> gives
  the empty string for an absent field unless \<open>Object.prototype\<close> defines the name. For
  such a name the code does not do what the claim says: the record below has no field
  \<open>constructor\<close>, and the placeholder renders as the source text of the function
  \<open>Object\<close>, which the property read finds in the prototype.
\<close>

theorem inherited_property_rendered:
  "map_of [(js ''number'', JString (js ''111''))] (js ''constructor'') = None \<and>
   replacePlaceholders (js ''Hi {constructor}'') (map_of [(js ''number'', JString (js ''111''))]) =
     js ''Hi function Object() { [native code] }''"
  by (simp add: js_def placeholder_at_def is_word_def fieldText_def getProp_def
        object_prototype_def)

text \<open>
  C6. A string in which no token \<open>{fieldName}\<close> with a word-character name occurs is
  rendered as itself, for every record: braces without a valid name stay. And two
  occurrences of the same name in a template are replaced by the same text.
\<close>

theorem render_plain_and_uniform:
  "(\<not> contains_placeholder s \<longrightarrow> replacePlaceholders s data = s) \<and>
   (key \<noteq> [] \<and> list_all is_word key \<longrightarrow>
      replacePlaceholders (a @ token key @ b @ token key @ c) data =
        replacePlaceholders a data @ fieldText data key @
        replacePlaceholders b data @ fieldText data key @
        replacePlaceholders c data)"
proof (intro conjI impI)
  assume "\<not> contains_placeholder s"
  then show "replacePlaceholders s data = s"
    by (rule replacePlaceholders_plain)
next
  assume k: "key \<noteq> [] \<and> list_all is_word key"
  then have "replacePlaceholders (a @ token key @ (b @ token key @ c)) data =
      replacePlaceholders a data @ fieldText data key @
      replacePlaceholders (b @ token key @ c) data"
    by (intro replacePlaceholders_token) simp_all
  moreover from k have "replacePlaceholders (b @ token key @ c) data =
      replacePlaceholders b data @ fieldText data key @ replacePlaceholders c data"
    by (intro replacePlaceholders_token) simp_all
  ultimately show "replacePlaceholders (a @ token key @ b @ token key @ c) data =
        replacePlaceholders a data @ fieldText data key @
        replacePlaceholders b data @ fieldText data key @
        replacePlaceholders c data"
    by simp
qed

theorem render_plain_and_uniform_witness:
  "\<not> contains_placeholder (js ''{} {a b} }x{'') \<and>
   replacePlaceholders (js ''{} {a b} }x{'') (map_of [(js ''name'', JString (js ''Ann''))]) =
     js ''{} {a b} }x{'' \<and>
   js ''name'' \<noteq> [] \<and> list_all is_word (js ''name'') \<and>
   replacePlaceholders (js ''Hi {name}, bye {name}!'') (map_of [(js ''name'', JString (js ''Ann''))]) =
     js ''Hi Ann, bye Ann!''"
proof -
  let ?data = "map_of [(js ''name'', JString (js ''Ann''))]"
  have 1: "\<not> contains_placeholder (js ''{} {a b} }x{'')"
    by (simp add: js_def placeholder_at_def is_word_def)
  have 2: "js ''name'' \<noteq> [] \<and> list_all is_word (js ''name'')"
    by (simp add: js_def is_word_def)
  have 3: "js ''Hi {name}, bye {name}!'' =
      js ''Hi '' @ token (js ''name'') @ js '', bye '' @ token (js ''name'') @ js ''!''"
    by (simp add: js_def token_def)
  have 4: "fieldText ?data (js ''name'') = js ''Ann''"
    by (simp add: fieldText_def getProp_def js_def)
  have 5: "replacePlaceholders (js ''Hi '') ?data = js ''Hi ''"
    "replacePlaceholders (js '', bye '') ?data = js '', bye ''"
    "replacePlaceholders (js ''!'') ?data = js ''!''"
    by (simp_all add: js_def placeholder_at_def)
  from render_plain_and_uniform [of "js ''{} {a b} }x{''" ?data "js ''name''" "js ''Hi ''"
      "js '', bye ''" "js ''!''"] 1 2
  have "replacePlaceholders (js ''{} {a b} }x{'') ?data = js ''{} {a b} }x{''"
    and "replacePlaceholders (js ''Hi {name}, bye {name}!'') ?data =
      js ''Hi '' @ js ''Ann'' @ js '', bye '' @ js ''Ann'' @ js ''!''"
    unfolding 3 4 5 by blast+
  then show ?thesis
    using 1 2 by (simp add: js_def)
qed

section \<open>The dispatch client\<close>

text \<open>
  C7, as stated: a failure's reason is the response body, else the message of the
  transport error. Not so for a response that is not ok and has an empty body: the code
  puts the text \<open>Unknown error\<close> there.
\<close>

theorem sendMessage_empty_body:
  "sendMessage (example_env\<lparr>remote := always (Response False [])\<rparr>) example_props 0
       (js ''111'') (js ''Hi Ann'') = Failure (js ''Unknown error'') \<and>
   claimed_result (remote (example_env\<lparr>remote := always (Response False [])\<rparr>) 0
       (bulksendRequest (example_env\<lparr>remote := always (Response False [])\<rparr>) example_props
          (js ''111'') (js ''Hi Ann''))) = Failure [] \<and>
   sendMessage (example_env\<lparr>remote := always (Response False [])\<rparr>) example_props 0
       (js ''111'') (js ''Hi Ann'') \<noteq>
   claimed_result (remote (example_env\<lparr>remote := always (Response False [])\<rparr>) 0
       (bulksendRequest (example_env\<lparr>remote := always (Response False [])\<rparr>) example_props
          (js ''111'') (js ''Hi Ann'')))"
  by (simp add: sendMessage_def always_def js_def example_env_def)

text \<open>
  C7, amended. The Dispatch Client returns success exactly when the call resolves with
  an ok status. Otherwise it returns a failure, whose reason is the response body when
  the status is not ok and the body is not empty, the text \<open>Unknown error\<close> when the
  status is not ok and the body is empty, and the message of the error when the call
  threw or was rejected. It returns one of the two in every case and throws nothing.
\<close>

theorem sendMessage_result:
  "sendMessage e p k number message =
     (case remote e k (bulksendRequest e p number message) of
        Response ok body \<Rightarrow>
          if ok then Success
          else if body = [] then Failure (js ''Unknown error'')
          else Failure body
      | Thrown m \<Rightarrow> Failure m) \<and>
   (sendMessage e p k number message = Success) =
     (\<exists>body. remote e k (bulksendRequest e p number message) = Response True body)"
  by (cases "remote e k (bulksendRequest e p number message)") (auto simp: sendMessage_def)

section \<open>The bulk sequencer\<close>

lemma hasNumber_rowNumber: "hasNumber r \<Longrightarrow> rowNumber r = Some (numberOf r)"
  by (auto simp: hasNumber_def numberOf_def split: option.splits)

lemma validRowsOf_all: "list_all hasNumber (validRowsOf data)"
  by (simp add: validRowsOf_def list_all_iff)

text \<open>The loop, unfolded once: past the last row, and at a row the filter kept.\<close>

lemma bulkLoop_done:
  "length validRows \<le> i \<Longrightarrow>
   bulkLoop e p template delay validRows tot i (s, f) = ([], Some (s, f))"
  by (simp add: bulkLoop.simps)

lemma bulkLoop_step:
  assumes "i < length validRows" and "hasNumber (validRows ! i)"
  shows "bulkLoop e p template delay validRows tot i (s, f) =
    (rowEvents e p template delay (length validRows) tot (i, validRows ! i) @
       fst (bulkLoop e p template delay validRows tot (i + 1)
             (case snd (dispatch e p template (i, validRows ! i)) of
                Success \<Rightarrow> (s + 1, f)
              | Failure err \<Rightarrow> (s, f @ [numberOf (validRows ! i)]))),
     snd (bulkLoop e p template delay validRows tot (i + 1)
             (case snd (dispatch e p template (i, validRows ! i)) of
                Success \<Rightarrow> (s + 1, f)
              | Failure err \<Rightarrow> (s, f @ [numberOf (validRows ! i)]))))"
  using assms hasNumber_rowNumber [OF assms(2)]
  by (subst bulkLoop.simps) (simp add: Let_def rowEvents_def dispatch_def requestOf_def)

text \<open>
  On rows that all have a number the loop ends without an exception. Its events are
  those of the rows from \<open>i\<close> on, in order; it adds the successes to the counter and
  appends the numbers of the failures.
\<close>

lemma bulkLoop_closed:
  assumes "list_all hasNumber validRows"
  shows "bulkLoop e p template delay validRows tot i (s, f) =
    (concat (map (rowEvents e p template delay (length validRows) tot)
               (enumerate i (drop i validRows))),
     Some (s + length (filter (\<lambda>(n, r). r = Success)
                        (map (dispatch e p template) (enumerate i (drop i validRows)))),
           f @ map fst (filter (\<lambda>(n, r). r \<noteq> Success)
                         (map (dispatch e p template) (enumerate i (drop i validRows))))))"
proof (induction "length validRows - i" arbitrary: i s f)
  case 0
  then show ?case by (simp add: bulkLoop_done)
next
  case (Suc k)
  then have i: "i < length validRows" and k: "k = length validRows - (i + 1)"
    by simp_all
  from i assms have v: "hasNumber (validRows ! i)"
    by (simp add: list_all_length)
  have d: "drop i validRows = validRows ! i # drop (i + 1) validRows"
    using i by (simp add: Cons_nth_drop_Suc)
  show ?case
  proof (cases "snd (dispatch e p template (i, validRows ! i))")
    case Success
    then show ?thesis
      using Suc.hyps(1) [OF k, of "s + 1" f]
      by (simp add: bulkLoop_step [OF i v] d dispatch_def)
  next
    case (Failure err)
    then show ?thesis
      using Suc.hyps(1) [OF k, of s "f @ [numberOf (validRows ! i)]"]
      by (simp add: bulkLoop_step [OF i v] d dispatch_def)
  qed
qed

lemma sequencer_closed:
  "sequencer e p template delay data =
    (concat (map (rowEvents e p template delay (length (validRowsOf data))
                    (length (validRowsOf data)))
               (enumerate 0 (validRowsOf data))),
     Some (length (filter (\<lambda>(n, r). r = Success) (outcomes e p template data)),
           map fst (filter (\<lambda>(n, r). r \<noteq> Success) (outcomes e p template data))))"
  unfolding sequencer_def outcomes_def
  by (simp add: bulkLoop_closed [OF validRowsOf_all])

subsection \<open>Projections of the loop's events\<close>

lemma progressEvents_append: "progressEvents (xs @ ys) = progressEvents xs @ progressEvents ys"
  by (induction xs rule: progressEvents.induct) simp_all

lemma fetches_append: "fetches (xs @ ys) = fetches xs @ fetches ys"
  by (induction xs rule: fetches.induct) simp_all

lemma sleeps_append: "sleeps (xs @ ys) = sleeps xs @ sleeps ys"
  by (induction xs rule: sleeps.induct) simp_all

lemma progressEvents_rows:
  "progressEvents (concat (map (rowEvents e p t d n tot) (enumerate i xs))) =
   map (\<lambda>j. \<lparr>current = j, total = tot\<rparr>) [Suc i..<Suc (i + length xs)]"
proof (induction xs arbitrary: i)
  case Nil
  then show ?case by simp
next
  case (Cons x xs)
  have "[Suc i..<Suc (i + length (x # xs))] = Suc i # [Suc (Suc i)..<Suc (Suc i + length xs)]"
    by (simp add: upt_conv_Cons del: upt_Suc)
  then show ?case
    using Cons.IH [of "Suc i"] by (simp add: rowEvents_def progressEvents_append del: upt_Suc)
qed

lemma fetches_rows:
  "fetches (concat (map (rowEvents e p t d n tot) (enumerate i xs))) = map (requestOf e p t) xs"
  by (induction xs arbitrary: i) (simp_all add: rowEvents_def fetches_append)

lemma sleeps_rows:
  "i + length xs = n \<Longrightarrow>
   sleeps (concat (map (rowEvents e p t d n tot) (enumerate i xs))) =
   replicate (length xs - 1) (d * 1000)"
proof (induction xs arbitrary: i)
  case Nil
  then show ?case by simp
next
  case (Cons x xs)
  show ?case
  proof (cases xs)
    case Nil
    with Cons.prems show ?thesis by (simp add: rowEvents_def)
  next
    case (Cons y ys)
    with Cons.prems have "int i < int n - 1" by simp
    moreover have "Suc i + length xs = n" using Cons.prems by simp
    ultimately show ?thesis
      using Cons.IH [of "Suc i"] Cons
      by (simp add: rowEvents_def sleeps_append)
  qed
qed

lemma alternate_rows:
  "filter (\<lambda>ev. \<not> is_Sleep ev) (concat (map (rowEvents e p t d n tot) (enumerate i xs))) =
   concat (map (\<lambda>(q, r). [SetProgress q, Fetch r])
     (zip (progressEvents (concat (map (rowEvents e p t d n tot) (enumerate i xs))))
          (fetches (concat (map (rowEvents e p t d n tot) (enumerate i xs))))))"
proof (induction xs arbitrary: i)
  case Nil
  then show ?case by simp
next
  case (Cons x xs)
  then show ?case
    by (simp add: rowEvents_def progressEvents_append fetches_append)
qed

lemma paced_rows:
  "i + length xs = n \<Longrightarrow>
   filter (\<lambda>ev. \<not> is_SetProgress ev) (concat (map (rowEvents e p t d n tot) (enumerate i xs))) =
   intersperse (Sleep (d * 1000)) (map (\<lambda>x. Fetch (requestOf e p t x)) xs)"
proof (induction xs arbitrary: i)
  case Nil
  then show ?case by simp
next
  case (Cons x xs)
  show ?case
  proof (cases xs)
    case Nil
    with Cons.prems show ?thesis by (simp add: rowEvents_def)
  next
    case (Cons y ys)
    with Cons.prems have "int i < int n - 1" by simp
    moreover have "Suc i + length xs = n" using Cons.prems by simp
    ultimately show ?thesis
      using Cons.IH [of "Suc i"] Cons
      by (simp add: rowEvents_def)
  qed
qed

lemma count_split:
  "length (filter (\<lambda>(n, r). r = Success) xs) + length (filter (\<lambda>(n, r). r \<noteq> Success) xs) =
   length xs"
  by (induction xs) auto

lemma rowEvents_loop: "list_all loop_event (rowEvents e p t d n tot jr)"
  by (cases jr) (simp add: rowEvents_def)

lemma sequencer_loop_events: "list_all loop_event (fst (sequencer e p template delay data))"
  by (simp add: sequencer_closed list_all_iff) (use rowEvents_loop in \<open>auto simp: list_all_iff\<close>)

subsection \<open>The run on the example of the specification\<close>

lemma example_run:
  "sequencer example_env example_props (js ''Hi {name}'') 2 example_rows =
     ([SetProgress \<lparr>current = 1, total = 2\<rparr>,
       Fetch \<lparr>url = js ''https://api.example/api/bulksend'', instance_id = js ''s1'',
              access_token = js ''t1'', recipients = [(js ''111'', js ''Hi Ann'')]\<rparr>,
       Sleep 2000,
       SetProgress \<lparr>current = 2, total = 2\<rparr>,
       Fetch \<lparr>url = js ''https://api.example/api/bulksend'', instance_id = js ''s1'',
              access_token = js ''t1'', recipients = [(js ''222'', js ''Hi Cid'')]\<rparr>],
      Some (1, [js ''222'']))"
  by (simp add: sequencer_def validRowsOf_def example_rows_def example_env_def example_props_def
        hasNumber_def rowNumber_def getProp_def object_prototype_def trim_def is_space_def
        js_def bulkLoop.simps sendMessage_def script_def bulksendRequest_def param_text_def
        placeholder_at_def is_word_def fieldText_def int_toString_def digits.simps)

subsection \<open>The run summary\<close>

text \<open>
  C1. For every input row sequence the loop returns a summary, and in it
  \<open>successCount + length failedNumbers = total\<close>, the number of rows the filter kept:
  \<open>successCount\<close> counts the rows whose dispatch succeeded and \<open>failedNumbers\<close> has one
  entry for each of the others.
\<close>

theorem summary_counts_every_row:
  "\<exists>successful failed.
     snd (sequencer e p template delay data) = Some (successful, failed) \<and>
     successful = length (filter (\<lambda>(n, r). r = Success) (outcomes e p template data)) \<and>
     length failed = length (filter (\<lambda>(n, r). r \<noteq> Success) (outcomes e p template data)) \<and>
     successful + length failed = length (validRowsOf data)"
proof -
  have "length (outcomes e p template data) = length (validRowsOf data)"
    by (simp add: outcomes_def)
  then show ?thesis
    using count_split [of "outcomes e p template data"]
    by (simp add: sequencer_closed)
qed

text \<open>
  C9. \<open>failedNumbers\<close> is the list of the trimmed numbers of the kept rows whose
  dispatch failed, in the order of the kept rows; the number recorded for a row is the
  one its request was sent to.
\<close>

theorem failed_numbers_in_dispatch_order:
  "(\<exists>successful. snd (sequencer e p template delay data) =
      Some (successful, map fst (filter (\<lambda>(n, r). r \<noteq> Success) (outcomes e p template data)))) \<and>
   map fst (outcomes e p template data) = map numberOf (validRowsOf data) \<and>
   map recipients (fetches (fst (sequencer e p template delay data))) =
     map (\<lambda>r. [(numberOf r, replacePlaceholders template r)]) (validRowsOf data)"
proof -
  have "map fst (map (dispatch e p template) (enumerate i xs)) = map numberOf xs" for i xs
    by (induction xs arbitrary: i) (simp_all add: dispatch_def)
  then have "map fst (outcomes e p template data) = map numberOf (validRowsOf data)"
    unfolding outcomes_def .
  moreover have "map recipients (fetches (fst (sequencer e p template delay data))) =
     map (\<lambda>r. [(numberOf r, replacePlaceholders template r)]) (validRowsOf data)"
    by (simp add: sequencer_closed fetches_rows requestOf_def bulksendRequest_def)
  ultimately show ?thesis
    by (simp add: sequencer_closed)
qed

subsection \<open>Filtering, order and pacing\<close>

text \<open>
  C2. Requests go to the rows whose \<open>number\<close> is not empty after trimming, and only to
  them, in their original order. The total reported by the progress set before the loop
  and by every progress update of the loop is the number of these rows.
\<close>

theorem dispatch_only_numbered_rows:
  "fetches (fst (sequencer e p template delay data)) =
     map (requestOf e p template) (filter hasNumber data) \<and>
   list_all (\<lambda>q. total q = length (filter hasNumber data))
     (progressEvents (fst (sequencer e p template delay data))) \<and>
   (\<exists>rest. onParsed e p template delay data =
      SetProgress \<lparr>current = 0, total = length (filter hasNumber data)\<rparr> #
      fst (sequencer e p template delay data) @ rest) \<and>
   hasNumber r = (\<exists>s. opt_toString (getProp r (js ''number'')) = Some s \<and> trim s \<noteq> [])"
proof -
  let ?T = "fst (sequencer e p template delay data)"
  let ?n = "length (validRowsOf data)"
  have T: "?T = concat (map (rowEvents e p template delay ?n ?n) (enumerate 0 (validRowsOf data)))"
    by (simp add: sequencer_closed)
  have "fetches ?T = map (requestOf e p template) (filter hasNumber data)"
    unfolding T fetches_rows by (simp add: validRowsOf_def)
  moreover have "list_all (\<lambda>q. total q = length (filter hasNumber data)) (progressEvents ?T)"
    unfolding T progressEvents_rows by (simp add: list_all_iff validRowsOf_def)
  moreover have "\<exists>rest. onParsed e p template delay data =
      SetProgress \<lparr>current = 0, total = length (filter hasNumber data)\<rparr> # ?T @ rest"
    by (simp add: onParsed_def Let_def validRowsOf_def)
  moreover have "hasNumber r = (\<exists>s. opt_toString (getProp r (js ''number'')) = Some s \<and> trim s \<noteq> [])"
    by (cases "opt_toString (getProp r (js ''number''))") (simp_all add: hasNumber_def rowNumber_def)
  ultimately show ?thesis by blast
qed

text \<open>
  C3. The loop updates the progress once per kept row, with \<open>current\<close> running through
  1, 2, ..., total in this order; the requests follow the order of the kept rows; and,
  the delays left out, the events are the progress update of the first row, its request,
  the progress update of the second row, its request, and so on: each update comes just
  before the request of its row. (Setting the progress state to \<open>(0, total)\<close> before
  the loop and resetting it to \<open>(0, 0)\<close> after it are steps of the callback around the
  loop.)
\<close>

theorem progress_before_each_send:
  "progressEvents (fst (sequencer e p template delay data)) =
     map (\<lambda>j. \<lparr>current = j, total = length (validRowsOf data)\<rparr>)
       [1..<Suc (length (validRowsOf data))] \<and>
   fetches (fst (sequencer e p template delay data)) =
     map (requestOf e p template) (validRowsOf data) \<and>
   filter (\<lambda>ev. \<not> is_Sleep ev) (fst (sequencer e p template delay data)) =
     concat (map (\<lambda>(q, r). [SetProgress q, Fetch r])
       (zip (progressEvents (fst (sequencer e p template delay data)))
            (fetches (fst (sequencer e p template delay data)))))"
proof -
  let ?n = "length (validRowsOf data)"
  let ?T = "fst (sequencer e p template delay data)"
  have T: "?T = concat (map (rowEvents e p template delay ?n ?n) (enumerate 0 (validRowsOf data)))"
    by (simp add: sequencer_closed)
  have "progressEvents ?T = map (\<lambda>j. \<lparr>current = j, total = ?n\<rparr>) [1..<Suc ?n]"
    unfolding T progressEvents_rows by (simp del: upt_Suc)
  moreover have "fetches ?T = map (requestOf e p template) (validRowsOf data)"
    unfolding T by (rule fetches_rows)
  moreover have "filter (\<lambda>ev. \<not> is_Sleep ev) ?T =
      concat (map (\<lambda>(q, r). [SetProgress q, Fetch r]) (zip (progressEvents ?T) (fetches ?T)))"
    unfolding T by (rule alternate_rows)
  ultimately show ?thesis by blast
qed

text \<open>
  C4. The loop sleeps \<open>total - 1\<close> times (never, when \<open>total\<close> is 0 or 1), each time
  for \<open>delay\<close> seconds, that is \<open>delay * 1000\<close> milliseconds; and, the progress updates
  left out, its events are the requests with one sleep between every two neighbours:
  a sleep follows every request but the last.
\<close>

theorem delay_between_sends_only:
  "sleeps (fst (sequencer e p template delay data)) =
     replicate (length (validRowsOf data) - 1) (delay * 1000) \<and>
   length (fetches (fst (sequencer e p template delay data))) = length (validRowsOf data) \<and>
   filter (\<lambda>ev. \<not> is_SetProgress ev) (fst (sequencer e p template delay data)) =
     intersperse (Sleep (delay * 1000))
       (map Fetch (fetches (fst (sequencer e p template delay data))))"
  by (simp add: sequencer_closed sleeps_rows paced_rows fetches_rows comp_def)

section \<open>The click handler\<close>

text \<open>The loop's events change no field of the state but \<open>progress\<close>.\<close>

lemma foldl_loop_events:
  "list_all loop_event tr \<Longrightarrow> \<exists>q. foldl apply_event s tr = s\<lparr>progress := q\<rparr>"
proof (induction tr arbitrary: s)
  case Nil
  have "s = s\<lparr>progress := progress s\<rparr>" by simp
  then show ?case by (metis foldl_Nil)
next
  case (Cons ev tr)
  then have tr: "list_all loop_event tr" and ev: "loop_event ev" by simp_all
  show ?case
  proof (cases ev)
    case (SetProgress q')
    from Cons.IH [OF tr, of "s\<lparr>progress := q'\<rparr>"] obtain q
      where "foldl apply_event (s\<lparr>progress := q'\<rparr>) tr = s\<lparr>progress := q'\<rparr>\<lparr>progress := q\<rparr>" ..
    then have "foldl apply_event s (ev # tr) = s\<lparr>progress := q\<rparr>"
      using SetProgress by simp
    then show ?thesis ..
  next
    case (Fetch r)
    with Cons.IH [OF tr, of s] show ?thesis by simp
  next
    case (Sleep ms)
    with Cons.IH [OF tr, of s] show ?thesis by simp
  qed (use ev in simp_all)
qed

text \<open>
  The callback sets the progress to \<open>(0, total)\<close>, runs the loop, which never throws on
  the rows the filter kept, and then resets the state and shows the summary.
\<close>

lemma onParsed_trace:
  "\<exists>successful failed. onParsed e p template delay data =
     SetProgress \<lparr>current = 0, total = length (validRowsOf data)\<rparr> #
     fst (sequencer e p template delay data) @
     [SetSending False, SetInputFile None, SetBulkMessage [],
      SetProgress \<lparr>current = 0, total = 0\<rparr>, Alert (summary successful failed)]"
  by (simp add: onParsed_def Let_def sequencer_closed) blast

text \<open>
  The progress state over the whole callback: set to \<open>(0, total)\<close> before the loop,
  updated once per kept row in the loop, and reset to \<open>(0, 0)\<close> after it.
\<close>

lemma onParsed_progress:
  "progressEvents (onParsed e p template delay data) =
     \<lparr>current = 0, total = length (validRowsOf data)\<rparr> #
     map (\<lambda>j. \<lparr>current = j, total = length (validRowsOf data)\<rparr>)
       [1..<Suc (length (validRowsOf data))] @
     [\<lparr>current = 0, total = 0\<rparr>]"
proof -
  let ?n = "length (validRowsOf data)"
  let ?T = "fst (sequencer e p template delay data)"
  have T: "?T = concat (map (rowEvents e p template delay ?n ?n) (enumerate 0 (validRowsOf data)))"
    by (simp add: sequencer_closed)
  have "progressEvents ?T = map (\<lambda>j. \<lparr>current = j, total = ?n\<rparr>) [1..<Suc ?n]"
    unfolding T progressEvents_rows by (simp del: upt_Suc)
  moreover obtain successful failed where "onParsed e p template delay data =
     SetProgress \<lparr>current = 0, total = ?n\<rparr> # ?T @
     [SetSending False, SetInputFile None, SetBulkMessage [],
      SetProgress \<lparr>current = 0, total = 0\<rparr>, Alert (summary successful failed)]"
    using onParsed_trace by blast
  ultimately show ?thesis
    by (simp add: progressEvents_append del: upt_Suc)
qed

text \<open>
  With an input error (no session id, no file, no access token, or a template that is
  empty after trimming) the handler only shows an alert: it sets no state and sends
  nothing.
\<close>

lemma input_error_only_alerts:
  assumes "falsy (sessionId p) \<or> inputFile st = None \<or> falsy (accessToken p) \<or>
           trim (bulkMessage st) = []"
  shows "handleBulkSend e p st =
           [Alert (js ''Session ID, file, access token, and message are required!'')]"
    and "click e p st = st"
  using assms by (simp_all add: click_def handleBulkSend_def)

text \<open>
  With valid inputs and a file whose extension is not \<open>csv\<close>, \<open>xlsx\<close> or \<open>xls\<close>, nothing
  is sent either, but the handler has set \<open>sending\<close> before the alert.
\<close>

lemma unsupported_file_trace:
  assumes "\<not> falsy (sessionId p)" "\<not> falsy (accessToken p)" "inputFile st = Some f"
    "trim (bulkMessage st) \<noteq> []"
    "extension f \<noteq> js ''csv''" "extension f \<noteq> js ''xlsx''" "extension f \<noteq> js ''xls''"
  shows "handleBulkSend e p st =
     [SetSending True,
      Alert (js ''Unsupported file type! Please upload a .csv, .xlsx, or .xls file.'')]"
  using assms by (simp add: handleBulkSend_def parseFile_def Let_def)

text \<open>
  The handler never ends in an uncaught exception: the file is there when it is read,
  and the loop only meets rows whose \<open>number\<close> has a string form.
\<close>

lemma loop_event_not_TypeError: "list_all loop_event tr \<Longrightarrow> TypeError \<notin> set tr"
  by (auto simp: list_all_iff)

lemma onParsed_no_exception: "TypeError \<notin> set (onParsed e p template delay data)"
proof -
  obtain successful failed where "onParsed e p template delay data =
     SetProgress \<lparr>current = 0, total = length (validRowsOf data)\<rparr> #
     fst (sequencer e p template delay data) @
     [SetSending False, SetInputFile None, SetBulkMessage [],
      SetProgress \<lparr>current = 0, total = 0\<rparr>, Alert (summary successful failed)]"
    using onParsed_trace by blast
  then show ?thesis
    using loop_event_not_TypeError [OF sequencer_loop_events, of e p template delay data]
    by simp
qed

lemma handleBulkSend_no_exception: "TypeError \<notin> set (handleBulkSend e p st)"
proof (cases "falsy (sessionId p) \<or> inputFile st = None \<or> falsy (accessToken p) \<or>
              trim (bulkMessage st) = []")
  case True
  then show ?thesis
    by (simp add: input_error_only_alerts(1))
next
  case False
  then obtain f where f: "inputFile st = Some f" by auto
  have "TypeError \<notin> set (parseFile f (onParsed e p (bulkMessage st) (delaySeconds st)))"
    by (simp add: parseFile_def Let_def onParsed_no_exception)
  with False f show ?thesis
    by (simp add: handleBulkSend_def)
qed

text \<open>
  C8. With an input error or a file of an unrecognised extension the run does not
  start: nothing is sent, and the failure is shown before the state of the component is
  touched. For an input error this is \<open>input_error_only_alerts\<close>. For an unrecognised
  extension the code does otherwise: with valid inputs and the file \<open>contacts.txt\<close> the
  handler sets \<open>sending\<close> to true, then shows the alert, and nothing sets the flag back.
\<close>

theorem unsupported_file_leaves_sending:
  "handleBulkSend example_env example_props (example_state (js ''contacts.txt'')) =
     [SetSending True,
      Alert (js ''Unsupported file type! Please upload a .csv, .xlsx, or .xls file.'')] \<and>
   sending (example_state (js ''contacts.txt'')) = False \<and>
   sending (click example_env example_props (example_state (js ''contacts.txt''))) = True"
proof -
  have "handleBulkSend example_env example_props (example_state (js ''contacts.txt'')) =
     [SetSending True,
      Alert (js ''Unsupported file type! Please upload a .csv, .xlsx, or .xls file.'')]"
    by (rule unsupported_file_trace [where f = "\<lparr>name = js ''contacts.txt'', records = example_rows\<rparr>"])
       (simp_all add: example_props_def example_state_def falsy_def js_def trim_def is_space_def
          extension_def lastSegment_def toLowerCase_def)
  then show ?thesis
    by (simp add: click_def example_state_def)
qed

text \<open>
  C10. A run that starts (valid inputs, a recognised extension) ends by clearing the
  sending flag, the selected file and the template and by setting the progress to
  \<open>(0, 0)\<close>: the state after the run is the state before it with these four fields
  reset, so the delay is as it was. These resets and the summary alert are the last
  events of the run, and a second click without a new file and template is refused.
\<close>

theorem completion_resets_state:
  assumes "\<not> falsy (sessionId p)" "\<not> falsy (accessToken p)" "inputFile st = Some f"
    and "trim (bulkMessage st) \<noteq> []"
    and "extension f = js ''csv'' \<or> extension f = js ''xlsx'' \<or> extension f = js ''xls''"
  shows "click e p st =
           st\<lparr>sending := False, inputFile := None, bulkMessage := [],
              progress := \<lparr>current = 0, total = 0\<rparr>\<rparr> \<and>
         (\<exists>before m. handleBulkSend e p st =
            before @ [SetSending False, SetInputFile None, SetBulkMessage [],
                      SetProgress \<lparr>current = 0, total = 0\<rparr>, Alert m]) \<and>
         handleBulkSend e p (click e p st) =
           [Alert (js ''Session ID, file, access token, and message are required!'')]"
proof -
  let ?T = "fst (sequencer e p (bulkMessage st) (delaySeconds st) (records f))"
  let ?n = "length (validRowsOf (records f))"
  let ?reset = "[SetSending False, SetInputFile None, SetBulkMessage [],
                 SetProgress \<lparr>current = 0, total = 0\<rparr>]"
  from onParsed_trace [of e p "bulkMessage st" "delaySeconds st" "records f"]
  obtain successful failed where
    cb: "onParsed e p (bulkMessage st) (delaySeconds st) (records f) =
           SetProgress \<lparr>current = 0, total = ?n\<rparr> # ?T @ ?reset @
           [Alert (summary successful failed)]"
    by auto
  have "parseFile f (onParsed e p (bulkMessage st) (delaySeconds st)) =
          onParsed e p (bulkMessage st) (delaySeconds st) (records f)"
    using assms(5) by (auto simp: parseFile_def Let_def)
  then have tr: "handleBulkSend e p st =
      (SetSending True # SetProgress \<lparr>current = 0, total = ?n\<rparr> # ?T) @
      ?reset @ [Alert (summary successful failed)]"
    using assms(1-4) cb by (simp add: handleBulkSend_def)
  obtain q where q:
    "foldl apply_event (st\<lparr>sending := True, progress := \<lparr>current = 0, total = ?n\<rparr>\<rparr>) ?T =
      st\<lparr>sending := True, progress := \<lparr>current = 0, total = ?n\<rparr>\<rparr>\<lparr>progress := q\<rparr>"
    using foldl_loop_events [OF sequencer_loop_events] by blast
  have fin: "click e p st =
      st\<lparr>sending := False, inputFile := None, bulkMessage := [],
         progress := \<lparr>current = 0, total = 0\<rparr>\<rparr>"
    unfolding click_def tr by (simp add: q)
  have "handleBulkSend e p (click e p st) =
      [Alert (js ''Session ID, file, access token, and message are required!'')]"
    unfolding fin by (simp add: handleBulkSend_def)
  moreover have "\<exists>before m. handleBulkSend e p st =
      before @ [SetSending False, SetInputFile None, SetBulkMessage [],
                SetProgress \<lparr>current = 0, total = 0\<rparr>, Alert m]"
    using tr by (metis append_Cons append_Nil)
  ultimately show ?thesis using fin by blast
qed

theorem completion_resets_state_witness:
  "\<not> falsy (sessionId example_props) \<and> \<not> falsy (accessToken example_props) \<and>
   inputFile (example_state (js ''contacts.CSV'')) =
     Some \<lparr>name = js ''contacts.CSV'', records = example_rows\<rparr> \<and>
   trim (bulkMessage (example_state (js ''contacts.CSV''))) \<noteq> [] \<and>
   extension \<lparr>name = js ''contacts.CSV'', records = example_rows\<rparr> = js ''csv'' \<and>
   click example_env example_props (example_state (js ''contacts.CSV'')) =
     \<lparr>inputFile = None, bulkMessage = [], sending = False, delaySeconds = 2,
      progress = \<lparr>current = 0, total = 0\<rparr>\<rparr>"
proof -
  have 1: "\<not> falsy (sessionId example_props)" and 2: "\<not> falsy (accessToken example_props)"
    by (simp_all add: example_props_def falsy_def js_def)
  have 3: "inputFile (example_state (js ''contacts.CSV'')) =
             Some \<lparr>name = js ''contacts.CSV'', records = example_rows\<rparr>"
    by (simp add: example_state_def)
  have 4: "trim (bulkMessage (example_state (js ''contacts.CSV''))) \<noteq> []"
    by (simp add: example_state_def trim_def js_def is_space_def)
  have 5: "extension \<lparr>name = js ''contacts.CSV'', records = example_rows\<rparr> = js ''csv''"
    by (simp add: extension_def lastSegment_def toLowerCase_def js_def)
  from completion_resets_state [OF 1 2 3 4 disjI1, OF 5, of example_env]
  have "click example_env example_props (example_state (js ''contacts.CSV'')) =
     (example_state (js ''contacts.CSV''))\<lparr>sending := False, inputFile := None,
        bulkMessage := [], progress := \<lparr>current = 0, total = 0\<rparr>\<rparr>"
    by blast
  then show ?thesis
    using 1 2 3 4 5 by (simp add: example_state_def)
qed

end
